theory Spec2Isabelle
  imports Main "HOL-Library.Char_ord" "HOL-Library.List_Lexorder" "HOL-Library.Multiset"
begin

section \<open>Python string primitives used by generate\_sidebar.py\<close>

text \<open>
  A Python \<open>str\<close> is modelled as a \<open>string\<close> (a list of 8-bit characters): a code point
  beyond ASCII stands as the bytes of its UTF-8 encoding. Every separator the script looks
  for (\<open>/\<close>, \<open>*\<close>, \<open>#\<close>, \<open>.\<close>, \<open>-\<close>, \<open>_\<close>, the space) is ASCII, and an ASCII byte never occurs
  inside a multi-byte UTF-8 sequence, so searching, splitting and replacing agree with
  Python's; the order on strings (bytewise lexicographic) is the code-point order that
  \<open>sorted\<close> uses.
\<close>

definition startswith :: "string \<Rightarrow> string \<Rightarrow> bool" where
  \<comment> \<open>\<open>s.startswith(p)\<close>\<close>
  "startswith s p = (take (length p) s = p)"

definition endswith :: "string \<Rightarrow> string \<Rightarrow> bool" where
  \<comment> \<open>\<open>s.endswith(p)\<close>\<close>
  "endswith s p = (length p \<le> length s \<and> drop (length s - length p) s = p)"

fun contains :: "string \<Rightarrow> string \<Rightarrow> bool" where
  \<comment> \<open>\<open>p in s\<close>: \<open>p\<close> occurs in \<open>s\<close> as a contiguous substring\<close>
  "contains p [] = (p = [])"
| "contains p (x # xs) = (startswith (x # xs) p \<or> contains p xs)"

fun split_char :: "char \<Rightarrow> string \<Rightarrow> string list" where
  \<comment> \<open>\<open>s.split(c)\<close> for a one-character separator: never empty, one more part than separators\<close>
  "split_char c [] = [[]]"
| "split_char c (x # xs) =
     (if x = c then [] # split_char c xs
      else (case split_char c xs of
              [] \<Rightarrow> [[x]]
            | p # ps \<Rightarrow> (x # p) # ps))"

section \<open>Exclusion patterns: should\_ignore\<close>

text \<open>
  \<open>should_ignore(path, gitignore_patterns)\<close>. The path is a string; the one question the
  function asks the filesystem, \<open>os.path.isdir(path)\<close>, is the first argument
  \<open>is_dir\<close> of the model. The \<open>for\<close> loop over the patterns is the recursion;
  \<open>return True\<close> ends it, and a pattern whose branch does not return goes on to the next
  pattern. The parts 0 and 1 of the split are read only when there are exactly two.
\<close>

fun should_ignore :: "bool \<Rightarrow> string \<Rightarrow> string list \<Rightarrow> bool" where
  "should_ignore is_dir path_str [] = False"
| "should_ignore is_dir path_str (pattern # gitignore_patterns) =
     (if endswith pattern ''/'' \<and> is_dir then
        (if endswith path_str (butlast pattern) \<or> contains (path_str @ ''/'') pattern
         then True
         else should_ignore is_dir path_str gitignore_patterns)
      else if CHR ''*'' \<in> set pattern then
        (let parts = split_char CHR ''*'' pattern in
         if length parts = 2 \<and> startswith path_str (parts ! 0) \<and> endswith path_str (parts ! 1)
         then True
         else should_ignore is_dir path_str gitignore_patterns)
      else if contains pattern path_str then True
      else should_ignore is_dir path_str gitignore_patterns)"

section \<open>Loading the rules file: load\_gitignore\_patterns\<close>

definition isspace :: "char \<Rightarrow> bool" where
  \<comment> \<open>\<open>str.isspace\<close> on ASCII: tab, line feed, vertical tab, form feed, carriage return,
      the four separators 0x1C..0x1F and the space (the whitespace of Unicode beyond ASCII
      is not modelled)\<close>
  "isspace c = (of_char c \<in> {9, 10, 11, 12, 13, 28, 29, 30, 31, 32 :: nat})"

definition strip :: "string \<Rightarrow> string" where
  \<comment> \<open>\<open>s.strip()\<close>\<close>
  "strip s = rev (dropWhile isspace (rev (dropWhile isspace s)))"

text \<open>
  A filesystem entry is a regular file (with the text lines that iterating over the open
  file yields) or a directory (with its listing: the names \<open>os.listdir\<close> returns, in the
  order it returns them, each with the entry it names). Symbolic links and special files
  are outside the model. Where the source sorts the names and then asks \<open>os.path.isfile\<close>
  or \<open>os.path.isdir\<close> of an item, the model sorts the listing by name (\<open>sort_key fst\<close>) and
  reads the answer from the entry listed under that name.
\<close>

datatype node = File "string list" | Dir "(string \<times> node) list"

fun isdir :: "node \<Rightarrow> bool" where
  "isdir (Dir _) = True"
| "isdir (File _) = False"

fun isfile :: "node \<Rightarrow> bool" where
  "isfile (File _) = True"
| "isfile (Dir _) = False"

datatype error = IsADirectoryError

fun read_patterns :: "string list \<Rightarrow> string list \<Rightarrow> string list" where
  \<comment> \<open>the loop \<open>for line in f\<close>, with the list \<open>patterns\<close> it appends to; \<open>split\<close> never
      returns an empty list, so its element 0 exists (lemma \<open>split_char_nonempty\<close>)\<close>
  "read_patterns patterns [] = patterns"
| "read_patterns patterns (line # f) =
     (let line' = strip (hd (split_char CHR ''#'' line)) in
      if line' \<noteq> [] then read_patterns (patterns @ [line']) f
      else read_patterns patterns f)"

definition load_gitignore_patterns :: "(string \<times> node) list \<Rightarrow> error + string list" where
  \<comment> \<open>the argument is the listing of \<open>wiki_dir\<close>; \<open>open\<close> on a directory raises\<close>
  "load_gitignore_patterns wiki_dir =
     (case map_of wiki_dir ''.gitignore'' of
        None \<Rightarrow> Inr []
      | Some (File f) \<Rightarrow> Inr (read_patterns [] f)
      | Some (Dir _) \<Rightarrow> Inl IsADirectoryError)"

section \<open>Labels and links: clean\_filename, generate\_wiki\_link\<close>

fun rfind_from :: "char \<Rightarrow> string \<Rightarrow> int \<Rightarrow> int \<Rightarrow> int" where
  "rfind_from c [] i found = found"
| "rfind_from c (x # xs) i found = rfind_from c xs (i + 1) (if x = c then i else found)"

definition rfind :: "char \<Rightarrow> string \<Rightarrow> int" where
  \<comment> \<open>\<open>p.rfind(c)\<close>: the highest index of \<open>c\<close> in \<open>p\<close>, or -1\<close>
  "rfind c p = rfind_from c p 0 (-1)"

function skip_leading_dots :: "string \<Rightarrow> int \<Rightarrow> int \<Rightarrow> bool" where
  \<comment> \<open>the \<open>while\<close> loop of \<open>genericpath._splitext\<close>: True when it returns the split\<close>
  "skip_leading_dots p filenameIndex dotIndex =
     (if filenameIndex < dotIndex then
        (if take 1 (drop (nat filenameIndex) p) \<noteq> ''.'' then True
         else skip_leading_dots p (filenameIndex + 1) dotIndex)
      else False)"
  by pat_completeness auto
termination
  by (relation "measure (\<lambda>(p, filenameIndex, dotIndex). nat (dotIndex - filenameIndex))") auto

definition splitext :: "string \<Rightarrow> string \<times> string" where
  \<comment> \<open>\<open>os.path.splitext\<close> (posixpath): the extension starts at the last dot of the last
      path component, unless only dots precede it there\<close>
  "splitext p =
     (let sepIndex = rfind CHR ''/'' p;
          dotIndex = rfind CHR ''.'' p
      in if dotIndex > sepIndex \<and> skip_leading_dots p (sepIndex + 1) dotIndex
         then (take (nat dotIndex) p, drop (nat dotIndex) p)
         else (p, []))"

definition replace_char :: "char \<Rightarrow> char \<Rightarrow> string \<Rightarrow> string" where
  \<comment> \<open>\<open>s.replace(a, b)\<close> for one-character \<open>a\<close> and \<open>b\<close>\<close>
  "replace_char a b s = map (\<lambda>c. if c = a then b else c) s"

definition clean_filename :: "string \<Rightarrow> string" where
  "clean_filename filename =
     (let name = fst (splitext filename);
          name = replace_char CHR ''_'' CHR '' '' (replace_char CHR ''-'' CHR '' '' name)
      in name)"

definition always_safe :: "char set" where
  \<comment> \<open>\<open>urllib.parse._ALWAYS_SAFE\<close>\<close>
  "always_safe =
     set ''ABCDEFGHIJKLMNOPQRSTUVWXYZabcdefghijklmnopqrstuvwxyz0123456789_.-~''"

definition hex_digit :: "nat \<Rightarrow> char" where
  "hex_digit n = ''0123456789ABCDEF'' ! (n mod 16)"

definition quoter :: "char \<Rightarrow> string" where
  \<comment> \<open>one byte under \<open>quote\<close> with the default \<open>safe='/'\<close>: kept, or \<open>'%{:02X}'.format(b)\<close>\<close>
  "quoter c =
     (if c \<in> always_safe \<or> c = CHR ''/'' then [c]
      else [CHR ''%'', hex_digit (of_char c div 16), hex_digit (of_char c mod 16)])"

definition quote :: "string \<Rightarrow> string" where
  \<comment> \<open>\<open>urllib.parse.quote(s)\<close> on the UTF-8 bytes of \<open>s\<close>\<close>
  "quote s = concat (map quoter s)"

definition generate_wiki_link :: "string \<Rightarrow> string" where
  "generate_wiki_link filename =
     (let name = fst (splitext filename);
          link_name = clean_filename filename;
          link_url = replace_char CHR '' '' CHR ''-'' name;
          link_url = quote link_url
      in ''['' @ link_name @ '']('' @ link_url @ '')'')"


section \<open>The traversal: os.walk, process\_directory, generate\_sidebar\<close>

definition join :: "string \<Rightarrow> string \<Rightarrow> string" where
  \<comment> \<open>\<open>os.path.join(a, b)\<close> (posixpath)\<close>
  "join a b =
     (if startswith b ''/'' then b
      else if a = [] \<or> endswith a ''/'' then a @ b
      else a @ ''/'' @ b)"

fun walk :: "string \<Rightarrow> node \<Rightarrow> (string \<times> string list \<times> string list) list" where
  \<comment> \<open>\<open>os.walk(dirpath)\<close>, top-down: the triples \<open>(root, dirs, files)\<close> in the order it yields
      them. A path that cannot be listed yields nothing (errors are ignored).\<close>
  "walk dirpath (File _) = []"
| "walk dirpath (Dir es) =
     (dirpath, map fst (filter (\<lambda>(d, n). isdir n) es), map fst (filter (\<lambda>(f, n). \<not> isdir n) es))
     # concat (map (\<lambda>(d, n). walk (join dirpath d) n) (filter (\<lambda>(d, n). isdir n) es))"

fun has_md_files_root :: "(string \<times> string list \<times> string list) list \<Rightarrow> bool" where
  \<comment> \<open>the lookahead loop of \<open>generate_sidebar\<close> over \<open>os.walk(directory_path)\<close>\<close>
  "has_md_files_root [] = False"
| "has_md_files_root ((root, dirs, files) # rest) =
     (if list_ex (\<lambda>f. endswith f ''.md'') files then True
      else has_md_files_root rest)"

fun has_md_files :: "string list \<Rightarrow> (string \<times> string list \<times> string list) list \<Rightarrow> bool" where
  \<comment> \<open>the lookahead loop of \<open>process_directory\<close> over \<open>os.walk(subdir_path)\<close>; the paths
      it tests are those of files, so \<open>os.path.isdir\<close> is false for them\<close>
  "has_md_files gitignore_patterns [] = False"
| "has_md_files gitignore_patterns ((root, dirs, files) # rest) =
     (if list_ex (\<lambda>f. endswith f ''.md'')
           (filter (\<lambda>f. \<not> should_ignore False (join root f) gitignore_patterns) files)
      then True
      else has_md_files gitignore_patterns rest)"

definition md_files :: "string \<Rightarrow> (string \<times> node) list \<Rightarrow> string list \<Rightarrow> string list" where
  \<comment> \<open>the list \<open>files\<close> of \<open>process_directory\<close>, from the sorted \<open>items\<close>\<close>
  "md_files directory_path items gitignore_patterns =
     map fst (filter (\<lambda>(item, n). isfile n
                \<and> endswith item ''.md''
                \<and> \<not> startswith item ''_''
                \<and> \<not> startswith item ''.''
                \<and> \<not> should_ignore False (join directory_path item) gitignore_patterns) items)"

definition subdirs_of :: "string \<Rightarrow> (string \<times> node) list \<Rightarrow> string list \<Rightarrow> (string \<times> node) list" where
  \<comment> \<open>the list \<open>subdirs\<close> of \<open>process_directory\<close> (and \<open>directories\<close> of
      \<open>generate_sidebar\<close>), each name with the directory it names\<close>
  "subdirs_of directory_path items gitignore_patterns =
     filter (\<lambda>(item, n). isdir n
                \<and> \<not> startswith item ''.''
                \<and> \<not> should_ignore True (join directory_path item) gitignore_patterns) items"

definition indent_of :: "nat \<Rightarrow> string" where
  \<comment> \<open>\<open>"  " * level\<close>\<close>
  "indent_of level = concat (replicate level ''  '')"

definition leaf_link :: "string \<Rightarrow> string \<Rightarrow> string" where
  \<comment> \<open>\<open>f"{indent}- {wiki_link}"\<close> with \<open>wiki_link = generate_wiki_link(file)\<close>\<close>
  "leaf_link indent file = indent @ ''- '' @ generate_wiki_link file"

definition subsection_header :: "string \<Rightarrow> string \<Rightarrow> string" where
  \<comment> \<open>\<open>f"{indent}- **{clean_subdir_name}**"\<close>\<close>
  "subsection_header indent subdir = indent @ ''- **'' @ clean_filename subdir @ ''**''"

definition section_header :: "string \<Rightarrow> string" where
  \<comment> \<open>\<open>f"### {clean_dir_name}"\<close>\<close>
  "section_header directory = ''### '' @ clean_filename directory"

lemma size_child_less: "(d, n) \<in> set es \<Longrightarrow> size n < size (Dir es)"
  by (induction es) auto

function process_directory ::
  "string \<Rightarrow> (string \<times> node) list \<Rightarrow> string list \<Rightarrow> nat \<Rightarrow> string list \<Rightarrow> string list" where
  \<comment> \<open>\<open>directory_path\<close> is the path and the listing of the directory; the list
      \<open>sidebar_content\<close> that the source appends to is passed in and returned. The list
      \<open>subdirs\<close> holds directories only, so the \<open>File\<close> branch is never taken.\<close>
  "process_directory directory_path listing sidebar_content level gitignore_patterns =
     (let indent = indent_of level;
          items = sort_key fst listing;
          files = md_files directory_path items gitignore_patterns;
          sidebar_content =
            foldl (\<lambda>content file. content @ [leaf_link indent file]) sidebar_content files;
          subdirs = subdirs_of directory_path items gitignore_patterns
      in foldl (\<lambda>content (subdir, n).
            (let subdir_path = join directory_path subdir in
             if \<not> has_md_files gitignore_patterns (walk subdir_path n) then content
             else (case n of
                     Dir sub \<Rightarrow>
                       process_directory subdir_path sub
                         (content @ [subsection_header indent subdir])
                         (level + 1) gitignore_patterns
                   | File _ \<Rightarrow> content)))
          sidebar_content subdirs)"
  by pat_completeness auto
termination
proof (relation "measure (\<lambda>(p, listing, c, l, g). size (Dir listing))", goal_cases)
  case 1
  show ?case by simp
next
  case (2 directory_path listing sidebar_content level gitignore_patterns indent items files
      content' subdirs content x subdir n subdir_path sub)
  then have "(subdir, Dir sub) \<in> set listing"
    by (auto simp: subdirs_of_def)
  then show ?case
    using size_child_less by fastforce
qed

declare process_directory.simps [simp del]

definition root_md_files :: "string \<Rightarrow> (string \<times> node) list \<Rightarrow> string list \<Rightarrow> string list" where
  \<comment> \<open>the list \<open>root_md_files\<close> of \<open>generate_sidebar\<close>, from the sorted \<open>root_items\<close>\<close>
  "root_md_files wiki_dir root_items gitignore_patterns =
     map fst (filter (\<lambda>(item, n). isfile n
                \<and> endswith item ''.md''
                \<and> \<not> startswith item ''_''
                \<and> \<not> startswith item ''.''
                \<and> \<not> item = ''Home.md''
                \<and> \<not> should_ignore False (join wiki_dir item) gitignore_patterns) root_items)"

definition sidebar_content :: "string \<Rightarrow> (string \<times> node) list \<Rightarrow> string list \<Rightarrow> string list" where
  \<comment> \<open>the list \<open>sidebar_content\<close> that \<open>generate_sidebar\<close> builds, for the absolute path
      \<open>wiki_dir\<close>, the listing of that directory and the loaded patterns\<close>
  "sidebar_content wiki_dir listing gitignore_patterns =
     (let content = [''### [[Home]]'', []];
          root_items = sort_key fst listing;
          directories = subdirs_of wiki_dir root_items gitignore_patterns;
          root_md = root_md_files wiki_dir root_items gitignore_patterns;
          content =
            foldl (\<lambda>content (directory, n).
              (let directory_path = join wiki_dir directory in
               if should_ignore True directory_path gitignore_patterns then content
               else if \<not> has_md_files_root (walk directory_path n) then content
               else (case n of
                       Dir sub \<Rightarrow>
                         process_directory directory_path sub
                           (content @ [section_header directory])
                           1 gitignore_patterns
                         @ [[]]
                     | File _ \<Rightarrow> content)))
              content directories
      in if root_md \<noteq> [] then
           foldl (\<lambda>content file. content @ [''- '' @ generate_wiki_link file])
             (content @ [''### Unsorted'']) (sort root_md)
         else content)"

fun join_lines :: "string list \<Rightarrow> string" where
  \<comment> \<open>\<open>"\n".join(lines)\<close>\<close>
  "join_lines [] = []"
| "join_lines [x] = x"
| "join_lines (x # y # ys) = x @ [CHR 0x0A] @ join_lines (y # ys)"

definition generate_sidebar ::
  "string \<Rightarrow> (string \<times> node) list \<Rightarrow> string \<Rightarrow> error + (string \<times> string)" where
  \<comment> \<open>\<open>wiki_dir\<close> is the absolute path (after \<open>os.path.abspath\<close>) with the listing of that
      directory; the result is the path written to and the text written there\<close>
  "generate_sidebar wiki_dir listing output_file =
     (case load_gitignore_patterns listing of
        Inl e \<Rightarrow> Inl e
      | Inr gitignore_patterns \<Rightarrow>
          Inr (join wiki_dir output_file,
               join_lines (sidebar_content wiki_dir listing gitignore_patterns)))"

section \<open>The traversal in closed form\<close>

definition rendered_subdirs ::
  "string \<Rightarrow> (string \<times> node) list \<Rightarrow> string list \<Rightarrow> (string \<times> node) list" where
  \<comment> \<open>the entries of \<open>subdirs\<close> that pass the lookahead of \<open>process_directory\<close>\<close>
  "rendered_subdirs directory_path items gitignore_patterns =
     filter (\<lambda>(subdir, n). has_md_files gitignore_patterns (walk (join directory_path subdir) n))
       (subdirs_of directory_path items gitignore_patterns)"

definition rendered_directories ::
  "string \<Rightarrow> (string \<times> node) list \<Rightarrow> string list \<Rightarrow> (string \<times> node) list" where
  \<comment> \<open>the entries of \<open>directories\<close> that pass the lookahead of \<open>generate_sidebar\<close>\<close>
  "rendered_directories wiki_dir root_items gitignore_patterns =
     filter (\<lambda>(directory, n). has_md_files_root (walk (join wiki_dir directory) n))
       (subdirs_of wiki_dir root_items gitignore_patterns)"

fun subdir_block :: "string \<Rightarrow> nat \<Rightarrow> string list \<Rightarrow> string \<times> node \<Rightarrow> string list" where
  \<comment> \<open>what one pass of the loop over \<open>subdirs\<close> appends for a directory it renders\<close>
  "subdir_block directory_path level gitignore_patterns (subdir, Dir sub) =
     subsection_header (indent_of level) subdir
     # process_directory (join directory_path subdir) sub [] (Suc level) gitignore_patterns"
| "subdir_block directory_path level gitignore_patterns (subdir, File _) = []"

fun section_block :: "string \<Rightarrow> string list \<Rightarrow> string \<times> node \<Rightarrow> string list" where
  \<comment> \<open>what one pass of the loop over \<open>directories\<close> appends for a directory it renders\<close>
  "section_block wiki_dir gitignore_patterns (directory, Dir sub) =
     section_header directory
     # process_directory (join wiki_dir directory) sub [] 1 gitignore_patterns @ [[]]"
| "section_block wiki_dir gitignore_patterns (directory, File _) = []"

lemma foldl_snoc_map: "foldl (\<lambda>c x. c @ [g x]) c xs = c @ map g xs"
  by (induction xs arbitrary: c) auto

lemma foldl_append_concat:
  "(\<And>x c. x \<in> set xs \<Longrightarrow> F c x = c @ G x) \<Longrightarrow> foldl F c xs = c @ concat (map G xs)"
  by (induction xs arbitrary: c) auto

lemma concat_map_if_filter:
  "concat (map (\<lambda>x. if P x then G x else []) xs) = concat (map G (filter P xs))"
  by (induction xs) auto

lemma subdirs_of_subset:
  "x \<in> set (subdirs_of p (sort_key fst es) pats) \<Longrightarrow> x \<in> set es"
  by (auto simp: subdirs_of_def)

lemma subdirs_of_isdir:
  "(d, n) \<in> set (subdirs_of p items pats) \<Longrightarrow> isdir n"
  by (auto simp: subdirs_of_def)

lemma subdirs_of_not_ignored:
  "(d, n) \<in> set (subdirs_of p items pats) \<Longrightarrow> \<not> should_ignore True (join p d) pats"
  by (auto simp: subdirs_of_def)

lemma process_directory_step:
  assumes IH: "\<And>d sub c'. (d, Dir sub) \<in> set es \<Longrightarrow>
      process_directory (join p d) sub c' (Suc l) pats
        = c' @ process_directory (join p d) sub [] (Suc l) pats"
    and xin: "x \<in> set (subdirs_of p (sort_key fst es) pats)"
  shows "(case x of (subdir, n) \<Rightarrow>
            if \<not> has_md_files pats (walk (join p subdir) n) then c
            else (case n of
                    Dir sub \<Rightarrow>
                      process_directory (join p subdir) sub
                        (c @ [subsection_header (indent_of l) subdir]) (l + 1) pats
                  | File _ \<Rightarrow> c))
         = c @ (if (case x of (subdir, n) \<Rightarrow> has_md_files pats (walk (join p subdir) n))
                then subdir_block p l pats x else [])"
proof -
  obtain d n where x: "x = (d, n)" by (cases x)
  show ?thesis
  proof (cases n)
    case (File ls)
    then show ?thesis using x by simp
  next
    case (Dir sub)
    have "(d, Dir sub) \<in> set es" using subdirs_of_subset[OF xin] x Dir by simp
    from IH[OF this, of "c @ [subsection_header (indent_of l) d]"] show ?thesis
      using x Dir by simp
  qed
qed

lemma process_directory_closed:
  "process_directory p es c l pats =
     c @ map (leaf_link (indent_of l)) (md_files p (sort_key fst es) pats)
       @ concat (map (subdir_block p l pats) (rendered_subdirs p (sort_key fst es) pats))"
proof (induction "size (Dir es)" arbitrary: p es c l rule: less_induct)
  case less
  have IH: "process_directory (join p d) sub c' (Suc l) pats
              = c' @ process_directory (join p d) sub [] (Suc l) pats"
    if "(d, Dir sub) \<in> set es" for d sub c'
  proof -
    have lt: "size (Dir sub) < size (Dir es)" using that by (rule size_child_less)
    show ?thesis
      using less[OF lt, of "join p d" c' "Suc l"] less[OF lt, of "join p d" "[]" "Suc l"]
      by simp
  qed
  show ?case
    apply (subst process_directory.simps)
    apply (simp only: Let_def)
    apply (subst foldl_append_concat[where G = "\<lambda>x. if (case x of (subdir, n) \<Rightarrow>
              has_md_files pats (walk (join p subdir) n)) then subdir_block p l pats x else []"])
     apply (rule process_directory_step)
      apply (erule IH)
     apply assumption
    apply (simp add: foldl_snoc_map concat_map_if_filter rendered_subdirs_def)
    done
qed

lemma process_directory_content:
  "process_directory p es c l pats = c @ process_directory p es [] l pats"
  using process_directory_closed[of p es c l pats] process_directory_closed[of p es "[]" l pats]
  by simp

lemma sidebar_content_step:
  assumes xin: "x \<in> set (subdirs_of wd items pats)"
  shows "(case x of (directory, n) \<Rightarrow>
            if should_ignore True (join wd directory) pats then c
            else if \<not> has_md_files_root (walk (join wd directory) n) then c
            else (case n of
                    Dir sub \<Rightarrow>
                      process_directory (join wd directory) sub
                        (c @ [section_header directory]) 1 pats @ [[]]
                  | File _ \<Rightarrow> c))
         = c @ (if (case x of (directory, n) \<Rightarrow> has_md_files_root (walk (join wd directory) n))
                then section_block wd pats x else [])"
proof -
  obtain d n where x: "x = (d, n)" by (cases x)
  have ni: "\<not> should_ignore True (join wd d) pats"
    using subdirs_of_not_ignored xin x by simp
  show ?thesis
  proof (cases n)
    case (File ls)
    then show ?thesis using x ni by simp
  next
    case (Dir sub)
    show ?thesis
      using x Dir ni process_directory_content[of "join wd d" sub "c @ [section_header d]" 1 pats]
      by simp
  qed
qed

lemma sidebar_content_closed:
  "sidebar_content wd es pats =
     [''### [[Home]]'', []]
     @ concat (map (section_block wd pats) (rendered_directories wd (sort_key fst es) pats))
     @ (if root_md_files wd (sort_key fst es) pats \<noteq> []
        then ''### Unsorted'' # map (leaf_link []) (sort (root_md_files wd (sort_key fst es) pats))
        else [])"
proof -
  have loop: "foldl (\<lambda>content (directory, n).
               if should_ignore True (join wd directory) pats then content
               else if \<not> has_md_files_root (walk (join wd directory) n) then content
               else (case n of
                       Dir sub \<Rightarrow>
                         process_directory (join wd directory) sub
                           (content @ [section_header directory]) 1 pats @ [[]]
                     | File _ \<Rightarrow> content))
              c (subdirs_of wd (sort_key fst es) pats)
        = c @ concat (map (section_block wd pats) (rendered_directories wd (sort_key fst es) pats))"
    for c
    apply (subst foldl_append_concat[where G = "\<lambda>x. if (case x of (directory, n) \<Rightarrow>
              has_md_files_root (walk (join wd directory) n)) then section_block wd pats x else []"])
     apply (rule sidebar_content_step, assumption)
    apply (simp add: concat_map_if_filter rendered_directories_def)
    done
  have leaf: "(\<lambda>file. ''- '' @ generate_wiki_link file) = leaf_link []"
    by (simp add: leaf_link_def fun_eq_iff)
  show ?thesis
    unfolding sidebar_content_def Let_def loop foldl_snoc_map leaf
    by simp
qed

section \<open>Facts about the string primitives\<close>

lemma endswith_append_same: "endswith (q @ p) p"
  by (simp add: endswith_def)

lemma endswith_append_short:
  "length p \<le> length b \<Longrightarrow> endswith (a @ b) p = endswith b p"
  by (simp add: endswith_def)

lemma startswith_Nil: "startswith s []"
  by (simp add: startswith_def)

lemma length_split_char: "length (split_char c s) = Suc (count_list s c)"
  by (induction s) (auto split: list.splits)



lemma count_list_0_iff: "count_list s c = 0 \<longleftrightarrow> c \<notin> set s"
  by (induction s) auto

section \<open>Pattern matching\<close>

text \<open>
  Claim C5. With the single pattern \<open>drafts/\<close>, \<open>should_ignore\<close> is true for every directory
  whose path string ends with \<open>drafts\<close>; with the single pattern \<open>*.tmp\<close> it is true for a
  path ending in \<open>notes.tmp\<close> and false for a path ending in \<open>notes.tmp.md\<close>; and a pattern
  that ends with the separator also matches a directory whose path string followed by a
  separator occurs inside the pattern.
\<close>

theorem should_ignore_documented_examples:
  "(\<forall>q. should_ignore True (q @ ''drafts'') [''drafts/''])
   \<and> (\<forall>q is_dir. should_ignore is_dir (q @ ''notes.tmp'') [''*.tmp''])
   \<and> (\<forall>q is_dir. \<not> should_ignore is_dir (q @ ''notes.tmp.md'') [''*.tmp''])
   \<and> (\<forall>p pattern. endswith pattern ''/'' \<and> contains (p @ ''/'') pattern
         \<longrightarrow> should_ignore True p [pattern])"
proof (intro conjI allI impI)
  fix q
  have "endswith (q @ ''drafts'') ''drafts''" by (rule endswith_append_same)
  then show "should_ignore True (q @ ''drafts'') [''drafts/'']"
    by (simp add: endswith_def)
next
  fix q is_dir
  have "endswith (q @ ''notes.tmp'') ''.tmp''"
    by (simp add: endswith_append_short) (simp add: endswith_def)
  then show "should_ignore is_dir (q @ ''notes.tmp'') [''*.tmp'']"
    by (simp add: startswith_Nil) (simp add: endswith_def)
next
  fix q is_dir
  have "\<not> endswith (q @ ''notes.tmp.md'') ''.tmp''"
    by (simp add: endswith_append_short) (simp add: endswith_def)
  then show "\<not> should_ignore is_dir (q @ ''notes.tmp.md'') [''*.tmp'']"
    by (simp add: startswith_Nil) (simp add: endswith_def)
next
  fix p pattern
  assume "endswith pattern ''/'' \<and> contains (p @ ''/'') pattern"
  then show "should_ignore True p [pattern]" by simp
qed

theorem should_ignore_documented_examples_witness:
  "endswith ''/w/a/b/'' ''/'' \<and> contains (''/w/a'' @ ''/'') ''/w/a/b/''
   \<and> \<not> endswith ''/w/a'' (butlast ''/w/a/b/'')
   \<and> should_ignore True ''/w/a'' [''/w/a/b/'']
   \<and> should_ignore True ''/wiki/drafts'' [''drafts/'']
   \<and> should_ignore False ''/wiki/notes.tmp'' [''*.tmp'']
   \<and> \<not> should_ignore False ''/wiki/notes.tmp.md'' [''*.tmp'']"
proof -
  have h: "endswith ''/w/a/b/'' ''/'' \<and> contains (''/w/a'' @ ''/'') ''/w/a/b/''"
    by (simp add: endswith_def startswith_def)
  have 1: "should_ignore True ''/w/a'' [''/w/a/b/'']"
    using should_ignore_documented_examples h by blast
  have 2: "should_ignore True (''/wiki/'' @ ''drafts'') [''drafts/'']"
    using should_ignore_documented_examples by blast
  have 3: "should_ignore False (''/wiki/'' @ ''notes.tmp'') [''*.tmp'']"
    using should_ignore_documented_examples by blast
  have 4: "\<not> should_ignore False (''/wiki/'' @ ''notes.tmp.md'') [''*.tmp'']"
    using should_ignore_documented_examples by blast
  have 5: "\<not> endswith ''/w/a'' (butlast ''/w/a/b/'')" by (simp add: endswith_def)
  from h 1 2 3 4 5 show ?thesis by simp
qed

text \<open>
  Claim C4, as the code has it. A pattern without \<open>*\<close> is never read as a prefix/suffix
  pattern: it matches by literal containment in the path string, or, when it ends with the
  separator and the path is a directory, by the directory rule. A pattern with more than
  one \<open>*\<close> is not read as a prefix/suffix pattern either, but it does not reach the literal
  test: the branch taken for any pattern holding a \<open>*\<close> ends without a match, so such a
  pattern matches only by the directory rule.
\<close>

theorem should_ignore_wildcard_count:
  "(count_list pattern CHR ''*'' = 0 \<longrightarrow>
      should_ignore is_dir p [pattern] =
        (if endswith pattern ''/'' \<and> is_dir
         then endswith p (butlast pattern) \<or> contains (p @ ''/'') pattern
         else contains pattern p))
   \<and> (1 < count_list pattern CHR ''*'' \<longrightarrow>
      should_ignore is_dir p [pattern] =
        (endswith pattern ''/'' \<and> is_dir
         \<and> (endswith p (butlast pattern) \<or> contains (p @ ''/'') pattern)))"
proof (intro conjI impI)
  assume "count_list pattern CHR ''*'' = 0"
  then have "CHR ''*'' \<notin> set pattern" by (simp add: count_list_0_iff)
  then show "should_ignore is_dir p [pattern] =
        (if endswith pattern ''/'' \<and> is_dir
         then endswith p (butlast pattern) \<or> contains (p @ ''/'') pattern
         else contains pattern p)"
    by simp
next
  assume many: "1 < count_list pattern CHR ''*''"
  then have len: "length (split_char CHR ''*'' pattern) \<noteq> 2"
    by (simp add: length_split_char)
  have "count_list pattern CHR ''*'' \<noteq> 0" using many by simp
  then have mem: "CHR ''*'' \<in> set pattern" by (simp add: count_list_0_iff)
  show "should_ignore is_dir p [pattern] =
        (endswith pattern ''/'' \<and> is_dir
         \<and> (endswith p (butlast pattern) \<or> contains (p @ ''/'') pattern))"
    using len mem by (auto simp: Let_def)
qed

theorem should_ignore_wildcard_count_witness:
  "count_list ''notes'' CHR ''*'' = 0
   \<and> should_ignore False ''/wiki/my-notes.md'' [''notes'']
   \<and> 1 < count_list ''a*b*'' CHR ''*''
   \<and> \<not> should_ignore False ''/wiki/a*b*.md'' [''a*b*'']"
proof -
  have a: "count_list ''notes'' CHR ''*'' = 0" by simp
  have b: "1 < count_list ''a*b*'' CHR ''*''" by simp
  have c: "contains ''notes'' ''/wiki/my-notes.md''" by (simp add: startswith_def)
  have d: "\<not> endswith ''notes'' ''/''" "\<not> endswith ''a*b*'' ''/''" by (simp_all add: endswith_def)
  show ?thesis
    using should_ignore_wildcard_count[of "''notes''" False "''/wiki/my-notes.md''"]
      should_ignore_wildcard_count[of "''a*b*''" False "''/wiki/a*b*.md''"] a b c d
    by simp
qed

text \<open>
  Claim C4 as stated fails: the pattern \<open>a*b*\<close> holds two wildcards and occurs literally in
  the path \<open>/wiki/a*b*.md\<close>, yet \<open>should_ignore\<close> returns False.
\<close>

theorem multi_wildcard_literal_counterexample:
  "1 < count_list ''a*b*'' CHR ''*''
   \<and> contains ''a*b*'' ''/wiki/a*b*.md''
   \<and> \<not> should_ignore False ''/wiki/a*b*.md'' [''a*b*'']"
  by (simp add: startswith_def endswith_def)

section \<open>The rules file\<close>





section \<open>Links\<close>

text \<open>
  Claim C3, as the code has it. For \<open>My-File_Name.md\<close> the label is \<open>My File Name\<close> and the
  identifier is \<open>My-File_Name\<close>: only spaces become hyphens, and the underscore is a safe
  character of the percent-encoding. In general the identifier is the extension-stripped
  base with every space replaced by a hyphen, then encoded byte by byte: letters, digits
  and the hyphen pass through unchanged, and a byte outside the safe set becomes \<open>%\<close>
  followed by its two upper-case hexadecimal digits.
\<close>

theorem generate_wiki_link_identifier:
  "generate_wiki_link ''My-File_Name.md'' = ''[My File Name](My-File_Name)''
   \<and> (\<forall>filename. generate_wiki_link filename =
         ''['' @ clean_filename filename @ '']('' @
         concat (map (\<lambda>c. if c = CHR '' '' then ''-'' else quoter c) (fst (splitext filename)))
         @ '')'')
   \<and> (\<forall>c \<in> set ''ABCDEFGHIJKLMNOPQRSTUVWXYZabcdefghijklmnopqrstuvwxyz0123456789-''.
         quoter c = [c])
   \<and> (\<forall>c. c \<notin> always_safe \<and> c \<noteq> CHR ''/'' \<longrightarrow>
         quoter c = [CHR ''%'', hex_digit (of_char c div 16), hex_digit (of_char c mod 16)])"
proof (intro conjI allI impI ballI)
  show "generate_wiki_link ''My-File_Name.md'' = ''[My File Name](My-File_Name)''"
    by (simp add: generate_wiki_link_def clean_filename_def splitext_def rfind_def
        replace_char_def quote_def quoter_def always_safe_def)
next
  fix filename
  have hyphen: "quoter CHR ''-'' = ''-''" by (simp add: quoter_def always_safe_def)
  have "quote (replace_char CHR '' '' CHR ''-'' s)
          = concat (map (\<lambda>c. if c = CHR '' '' then ''-'' else quoter c) s)" for s
    by (induction s) (simp_all add: quote_def replace_char_def hyphen)
  then show "generate_wiki_link filename =
         ''['' @ clean_filename filename @ '']('' @
         concat (map (\<lambda>c. if c = CHR '' '' then ''-'' else quoter c) (fst (splitext filename)))
         @ '')''"
    by (simp add: generate_wiki_link_def Let_def)
next
  fix c
  assume "c \<in> set ''ABCDEFGHIJKLMNOPQRSTUVWXYZabcdefghijklmnopqrstuvwxyz0123456789-''"
  then have "c \<in> always_safe" by (auto simp: always_safe_def)
  then show "quoter c = [c]" by (simp add: quoter_def)
next
  fix c
  assume "c \<notin> always_safe \<and> c \<noteq> CHR ''/''"
  then show "quoter c = [CHR ''%'', hex_digit (of_char c div 16), hex_digit (of_char c mod 16)]"
    by (simp add: quoter_def)
qed

theorem generate_wiki_link_identifier_witness:
  "CHR ''F'' \<in> set ''ABCDEFGHIJKLMNOPQRSTUVWXYZabcdefghijklmnopqrstuvwxyz0123456789-''
   \<and> quoter CHR ''F'' = ''F''
   \<and> CHR ''&'' \<notin> always_safe \<and> CHR ''&'' \<noteq> CHR ''/''
   \<and> quoter CHR ''&'' = ''%26''
   \<and> generate_wiki_link ''Q & A.md'' = ''[Q & A](Q-%26-A)''"
proof -
  have a: "CHR ''F'' \<in> set ''ABCDEFGHIJKLMNOPQRSTUVWXYZabcdefghijklmnopqrstuvwxyz0123456789-''"
    by simp
  have b: "CHR ''&'' \<notin> always_safe \<and> CHR ''&'' \<noteq> CHR ''/''"
    by (simp add: always_safe_def)
  have c: "[CHR ''%'', hex_digit (of_char CHR ''&'' div 16), hex_digit (of_char CHR ''&'' mod 16)]
            = ''%26''"
    by (simp add: hex_digit_def)
  have d: "quoter CHR ''F'' = ''F''"
    using generate_wiki_link_identifier a by blast
  have e: "quoter CHR ''&'' = ''%26''"
    using generate_wiki_link_identifier b c by metis
  have f: "generate_wiki_link ''Q & A.md'' = ''[Q & A](Q-%26-A)''"
    by (simp add: generate_wiki_link_def clean_filename_def splitext_def rfind_def
        replace_char_def quote_def quoter_def always_safe_def hex_digit_def)
  from a b d e f show ?thesis by simp
qed

text \<open>
  Claim C3 as stated fails at its own example: the identifier of \<open>My-File_Name.md\<close> is not
  \<open>My-File-Name\<close>.
\<close>

theorem underscore_identifier_counterexample:
  "generate_wiki_link ''My-File_Name.md'' \<noteq> ''[My File Name](My-File-Name)''"
  by (simp add: generate_wiki_link_def clean_filename_def splitext_def rfind_def
      replace_char_def quote_def quoter_def always_safe_def)

section \<open>The lookahead and the rendering\<close>


lemma has_md_files_append:
  "has_md_files pats (xs @ ys) \<longleftrightarrow> has_md_files pats xs \<or> has_md_files pats ys"
  by (induction xs) (auto split: if_splits)

lemma has_md_files_concat:
  "has_md_files pats (concat xss) \<longleftrightarrow> (\<exists>xs \<in> set xss. has_md_files pats xs)"
  by (induction xss) (auto simp: has_md_files_append)

lemma has_md_files_root_append:
  "has_md_files_root (xs @ ys) \<longleftrightarrow> has_md_files_root xs \<or> has_md_files_root ys"
  by (induction xs) (auto split: if_splits)

lemma has_md_files_root_concat:
  "has_md_files_root (concat xss) \<longleftrightarrow> (\<exists>xs \<in> set xss. has_md_files_root xs)"
  by (induction xss) (auto simp: has_md_files_root_append)


lemma has_md_files_walk_Dir:
  "has_md_files pats (walk p (Dir es)) \<longleftrightarrow>
     (\<exists>(f, n) \<in> set es. \<not> isdir n \<and> endswith f ''.md'' \<and> \<not> should_ignore False (join p f) pats)
     \<or> (\<exists>(d, n) \<in> set es. isdir n \<and> has_md_files pats (walk (join p d) n))"
  by (auto simp: has_md_files_concat list_ex_iff)

lemma has_md_files_root_walk_Dir:
  "has_md_files_root (walk p (Dir es)) \<longleftrightarrow>
     (\<exists>(f, n) \<in> set es. \<not> isdir n \<and> endswith f ''.md'')
     \<or> (\<exists>(d, n) \<in> set es. isdir n \<and> has_md_files_root (walk (join p d) n))"
  by (auto simp: has_md_files_root_concat list_ex_iff)






text \<open>
  Claim C6. At every level, \<open>process_directory\<close> appends first one leaf-link line per
  document, then one block per rendered subdirectory: its subsection header, immediately
  followed by the rendering of that subdirectory at the next indent level. The documents
  are in lexicographic order of file name, and so are the subdirectories.
\<close>

theorem process_directory_order:
  "process_directory p es c l pats =
     c @ map (leaf_link (indent_of l)) (md_files p (sort_key fst es) pats)
       @ concat (map (subdir_block p l pats) (rendered_subdirs p (sort_key fst es) pats))
   \<and> sorted (md_files p (sort_key fst es) pats)
   \<and> sorted (map fst (rendered_subdirs p (sort_key fst es) pats))
   \<and> list_all (\<lambda>(d, n). isdir n) (rendered_subdirs p (sort_key fst es) pats)"
proof (intro conjI)
  show "process_directory p es c l pats =
     c @ map (leaf_link (indent_of l)) (md_files p (sort_key fst es) pats)
       @ concat (map (subdir_block p l pats) (rendered_subdirs p (sort_key fst es) pats))"
    by (rule process_directory_closed)
  have s: "sorted (map fst (sort_key fst es))" by (rule sorted_sort_key)
  show "sorted (md_files p (sort_key fst es) pats)"
    unfolding md_files_def using s by (rule sorted_filter)
  show "sorted (map fst (rendered_subdirs p (sort_key fst es) pats))"
    unfolding rendered_subdirs_def subdirs_of_def using s by (intro sorted_filter)
  show "list_all (\<lambda>(d, n). isdir n) (rendered_subdirs p (sort_key fst es) pats)"
    by (auto simp: list_all_iff rendered_subdirs_def subdirs_of_def)
qed

theorem process_directory_order_witness:
  "sorted (md_files ''/w/G''
     (sort_key fst [(''zeta'', Dir [(''x.md'', File [])]), (''b.md'', File []),
                    (''alpha'', Dir [(''y.md'', File [])]), (''a.md'', File [])]) [])
   \<and> process_directory ''/w/G''
        [(''zeta'', Dir [(''x.md'', File [])]), (''b.md'', File []),
         (''alpha'', Dir [(''y.md'', File [])]), (''a.md'', File [])] [] 1 []
       = [''  - [a](a)'', ''  - [b](b)'',
          ''  - **alpha**'', ''    - [y](y)'',
          ''  - **zeta**'', ''    - [x](x)'']"
proof -
  have a: "sorted (md_files ''/w/G''
     (sort_key fst [(''zeta'', Dir [(''x.md'', File [])]), (''b.md'', File []),
                    (''alpha'', Dir [(''y.md'', File [])]), (''a.md'', File [])]) [])"
    using process_directory_order[of "''/w/G''"
        "[(''zeta'', Dir [(''x.md'', File [])]), (''b.md'', File []),
          (''alpha'', Dir [(''y.md'', File [])]), (''a.md'', File [])]" "[]" 1 "[]"]
    by blast
  have b: "process_directory ''/w/G''
        [(''zeta'', Dir [(''x.md'', File [])]), (''b.md'', File []),
         (''alpha'', Dir [(''y.md'', File [])]), (''a.md'', File [])] [] 1 []
       = [''  - [a](a)'', ''  - [b](b)'',
          ''  - **alpha**'', ''    - [y](y)'',
          ''  - **zeta**'', ''    - [x](x)'']"
    by code_simp
  from a b show ?thesis by blast
qed

section \<open>Header text of directories\<close>

lemma rfind_from_append:
  "rfind_from c (xs @ ys) i found = rfind_from c ys (i + int (length xs)) (rfind_from c xs i found)"
  by (induction xs arbitrary: i found) (auto simp: algebra_simps)

lemma rfind_from_notin: "c \<notin> set xs \<Longrightarrow> rfind_from c xs i found = found"
  by (induction xs arbitrary: i) auto

lemma rfind_last: "c \<notin> set post \<Longrightarrow> rfind c (pre @ c # post) = int (length pre)"
  by (simp add: rfind_def rfind_from_append rfind_from_notin)

lemma rfind_none: "c \<notin> set p \<Longrightarrow> rfind c p = - 1"
  by (simp add: rfind_def rfind_from_notin)

definition before_last_dot :: "string \<Rightarrow> string" where
  \<comment> \<open>the name with everything from its last dot onward removed\<close>
  "before_last_dot name = rev (tl (dropWhile (\<lambda>c. c \<noteq> CHR ''.'') (rev name)))"

definition dashes_to_spaces :: "string \<Rightarrow> string" where
  \<comment> \<open>every hyphen and every underscore replaced by a space\<close>
  "dashes_to_spaces s = map (\<lambda>c. if c = CHR ''-'' \<or> c = CHR ''_'' then CHR '' '' else c) s"

lemma clean_filename_dotted:
  assumes dot: "CHR ''.'' \<in> set name" and sep: "CHR ''/'' \<notin> set name"
    and vis: "\<not> startswith name ''.''"
  shows "clean_filename name = dashes_to_spaces (before_last_dot name)"
proof -
  obtain pre post where name: "name = pre @ CHR ''.'' # post" and post: "CHR ''.'' \<notin> set post"
    using split_list_last[OF dot] by blast
  have pre: "pre \<noteq> []" "hd pre \<noteq> CHR ''.''"
    using vis name by (cases pre; simp add: startswith_def)+
  have dotIndex: "rfind CHR ''.'' name = int (length pre)"
    using post name by (simp add: rfind_last)
  have sepIndex: "rfind CHR ''/'' name = - 1"
    using sep by (rule rfind_none)
  have first: "take 1 (drop (nat 0) name) \<noteq> ''.''"
    using pre name by (cases pre) auto
  have loop: "skip_leading_dots name 0 (int (length pre))"
    using pre(1) first by (subst skip_leading_dots.simps) (simp del: skip_leading_dots.simps)
  have "splitext name = (take (length pre) name, drop (length pre) name)"
    using loop by (simp add: splitext_def dotIndex sepIndex del: skip_leading_dots.simps)
  then have split: "fst (splitext name) = pre"
    by (simp add: name)
  have "dropWhile (\<lambda>c. c \<noteq> CHR ''.'') (rev post @ CHR ''.'' # rev pre) = CHR ''.'' # rev pre"
    using post by (subst dropWhile_append2) auto
  then have base: "before_last_dot name = pre"
    by (simp add: before_last_dot_def name)
  show ?thesis
    by (simp add: clean_filename_def split base dashes_to_spaces_def replace_char_def Let_def)
qed

text \<open>
  Claim C10. A directory that reaches the list \<open>directories\<close> of \<open>generate_sidebar\<close> or
  the list \<open>subdirs\<close> of \<open>process_directory\<close> (the only names a header is built from), and
  whose name contains a dot, gets as header text its name cut at the last dot, with hyphens
  and underscores turned into spaces: the extension rule of file names, applied to a
  directory. The name is a directory entry, so it holds no separator.
\<close>

theorem directory_header_extension_stripped:
  "(name, n) \<in> set (subdirs_of p items pats) \<and> CHR ''.'' \<in> set name \<and> CHR ''/'' \<notin> set name
   \<longrightarrow> section_header name = ''### '' @ dashes_to_spaces (before_last_dot name)
       \<and> subsection_header indent name
           = indent @ ''- **'' @ dashes_to_spaces (before_last_dot name) @ ''**''"
proof
  assume a: "(name, n) \<in> set (subdirs_of p items pats) \<and> CHR ''.'' \<in> set name
    \<and> CHR ''/'' \<notin> set name"
  then have "\<not> startswith name ''.''" by (auto simp: subdirs_of_def)
  with a have "clean_filename name = dashes_to_spaces (before_last_dot name)"
    by (simp add: clean_filename_dotted)
  then show "section_header name = ''### '' @ dashes_to_spaces (before_last_dot name)
       \<and> subsection_header indent name
           = indent @ ''- **'' @ dashes_to_spaces (before_last_dot name) @ ''**''"
    by (simp add: section_header_def subsection_header_def)
qed

theorem directory_header_extension_stripped_witness:
  "(''v1.0'', Dir [(''a.md'', File [])])
      \<in> set (subdirs_of ''/wiki'' (sort_key fst [(''v1.0'', Dir [(''a.md'', File [])])]) [])
   \<and> CHR ''.'' \<in> set ''v1.0'' \<and> CHR ''/'' \<notin> set ''v1.0''
   \<and> section_header ''v1.0'' = ''### v1''
   \<and> subsection_header ''  '' ''release-notes_v1.0'' = ''  - **release notes v1**''
   \<and> sidebar_content ''/wiki'' [(''v1.0'', Dir [(''a.md'', File [])])] []
       = [''### [[Home]]'', [], ''### v1'', ''  - [a](a)'', []]"
proof -
  have a: "(''v1.0'', Dir [(''a.md'', File [])])
      \<in> set (subdirs_of ''/wiki'' (sort_key fst [(''v1.0'', Dir [(''a.md'', File [])])]) [])"
    by (simp add: subdirs_of_def startswith_def)
  have b: "CHR ''.'' \<in> set ''v1.0'' \<and> CHR ''/'' \<notin> set ''v1.0''" by simp
  have c: "''### '' @ dashes_to_spaces (before_last_dot ''v1.0'') = ''### v1''"
    by (simp add: dashes_to_spaces_def before_last_dot_def)
  have d: "section_header ''v1.0'' = ''### v1''"
    using directory_header_extension_stripped[of "''v1.0''" "Dir [(''a.md'', File [])]" "''/wiki''"
        "sort_key fst [(''v1.0'', Dir [(''a.md'', File [])])]" "[]" "[]"] a b c
    by simp
  have e: "subsection_header ''  '' ''release-notes_v1.0'' = ''  - **release notes v1**''"
    by code_simp
  have f: "sidebar_content ''/wiki'' [(''v1.0'', Dir [(''a.md'', File [])])] []
       = [''### [[Home]]'', [], ''### v1'', ''  - [a](a)'', []]"
    by code_simp
  from a b d e f show ?thesis by blast
qed

section \<open>The documented end-to-end example\<close>

text \<open>
  Claim C7. For a root that holds exactly \<open>Home.md\<close>, \<open>loose.md\<close> and the directory
  \<open>Guides\<close> with \<open>intro.md\<close> in it (whatever the files contain, in whatever order the
  root is listed, and so with no rules file), the sidebar is the home header, a blank line,
  the \<open>Guides\<close> section header, the leaf link of \<open>intro\<close>, a blank line, the
  \<open>Unsorted\<close> section header and the leaf link of \<open>loose\<close>; the text written is these
  lines joined by newlines.
\<close>

theorem generate_sidebar_end_to_end:
  "mset listing = mset [(''Home.md'', File home), (''loose.md'', File loose),
                        (''Guides'', Dir [(''intro.md'', File intro)])]
   \<longrightarrow> generate_sidebar wiki_dir listing output_file
         = Inr (join wiki_dir output_file,
                join_lines [''### [[Home]]'', [], ''### Guides'', ''  - [intro](intro)'', [],
                            ''### Unsorted'', ''- [loose](loose)''])
       \<and> load_gitignore_patterns listing = Inr []
       \<and> sidebar_content wiki_dir listing []
         = [''### [[Home]]'', [], ''### Guides'', ''  - [intro](intro)'', [],
            ''### Unsorted'', ''- [loose](loose)'']"
proof
  assume m: "mset listing = mset [(''Home.md'', File home), (''loose.md'', File loose),
                        (''Guides'', Dir [(''intro.md'', File intro)])]"
  then have set: "set listing = {(''Home.md'', File home), (''loose.md'', File loose),
                        (''Guides'', Dir [(''intro.md'', File intro)])}"
    using mset_eq_setD by fastforce
  have items: "sort_key fst listing = [(''Guides'', Dir [(''intro.md'', File intro)]),
      (''Home.md'', File home), (''loose.md'', File loose)]"
  proof (rule sort_key_inj_key_eq)
    show "mset listing = mset [(''Guides'', Dir [(''intro.md'', File intro)]),
      (''Home.md'', File home), (''loose.md'', File loose)]"
      using m by simp
    show "inj_on fst (set listing)" by (simp add: set)
    show "sorted (map fst [(''Guides'', Dir [(''intro.md'', File intro)]),
      (''Home.md'', File home), (''loose.md'', File loose)])"
      by simp
  qed
  have "''.gitignore'' \<notin> fst ` set listing" by (simp add: set)
  then have norules: "map_of listing ''.gitignore'' = None"
    by (simp add: map_of_eq_None_iff)
  then have pats: "load_gitignore_patterns listing = Inr []"
    by (simp add: load_gitignore_patterns_def)
  have link1: "generate_wiki_link ''intro.md'' = ''[intro](intro)''" by code_simp
  have link2: "generate_wiki_link ''loose.md'' = ''[loose](loose)''" by code_simp
  have hdr: "section_header ''Guides'' = ''### Guides''" by code_simp
  have sub: "process_directory (join wiki_dir ''Guides'') [(''intro.md'', File intro)] [] (Suc 0) []
      = [''  - [intro](intro)'']"
  proof -
    have leaf: "leaf_link (indent_of (Suc 0)) ''intro.md'' = ''  - [intro](intro)''"
      by (simp add: leaf_link_def indent_of_def link1)
    have name: "endswith ''intro.md'' ''.md''" "\<not> startswith ''intro.md'' ''_''"
      "\<not> startswith ''intro.md'' ''.''"
      by (simp_all add: startswith_def endswith_def)
    show ?thesis
      by (subst process_directory_closed)
        (simp add: md_files_def rendered_subdirs_def subdirs_of_def leaf name)
  qed
  have dirs: "rendered_directories wiki_dir [(''Guides'', Dir [(''intro.md'', File intro)]),
      (''Home.md'', File home), (''loose.md'', File loose)] []
      = [(''Guides'', Dir [(''intro.md'', File intro)])]"
    by (simp add: rendered_directories_def subdirs_of_def startswith_def endswith_def)
  have root: "root_md_files wiki_dir [(''Guides'', Dir [(''intro.md'', File intro)]),
      (''Home.md'', File home), (''loose.md'', File loose)] [] = [''loose.md'']"
    by (simp add: root_md_files_def startswith_def endswith_def)
  have content: "sidebar_content wiki_dir listing []
         = [''### [[Home]]'', [], ''### Guides'', ''  - [intro](intro)'', [],
            ''### Unsorted'', ''- [loose](loose)'']"
    by (simp add: sidebar_content_closed items dirs root sub hdr leaf_link_def link2)
  show "generate_sidebar wiki_dir listing output_file
         = Inr (join wiki_dir output_file,
                join_lines [''### [[Home]]'', [], ''### Guides'', ''  - [intro](intro)'', [],
                            ''### Unsorted'', ''- [loose](loose)''])
       \<and> load_gitignore_patterns listing = Inr []
       \<and> sidebar_content wiki_dir listing []
         = [''### [[Home]]'', [], ''### Guides'', ''  - [intro](intro)'', [],
            ''### Unsorted'', ''- [loose](loose)'']"
    by (simp add: generate_sidebar_def pats content)
qed

theorem generate_sidebar_end_to_end_witness:
  "mset [(''loose.md'', File [''notes'']), (''Guides'', Dir [(''intro.md'', File [])]),
         (''Home.md'', File [''# Home''])]
     = mset [(''Home.md'', File [''# Home'']), (''loose.md'', File [''notes'']),
             (''Guides'', Dir [(''intro.md'', File [])])]
   \<and> generate_sidebar ''/wiki''
        [(''loose.md'', File [''notes'']), (''Guides'', Dir [(''intro.md'', File [])]),
         (''Home.md'', File [''# Home''])] ''_Sidebar.md''
     = Inr (''/wiki/_Sidebar.md'',
            join_lines [''### [[Home]]'', [], ''### Guides'', ''  - [intro](intro)'', [],
                        ''### Unsorted'', ''- [loose](loose)''])"
proof -
  have a: "mset [(''loose.md'', File [''notes'']), (''Guides'', Dir [(''intro.md'', File [])]),
         (''Home.md'', File [''# Home''])]
     = mset [(''Home.md'', File [''# Home'']), (''loose.md'', File [''notes'']),
             (''Guides'', Dir [(''intro.md'', File [])])]"
    by simp
  have b: "join ''/wiki'' ''_Sidebar.md'' = ''/wiki/_Sidebar.md''"
    by (simp add: join_def startswith_def endswith_def)
  show ?thesis
    using generate_sidebar_end_to_end[of
        "[(''loose.md'', File [''notes'']), (''Guides'', Dir [(''intro.md'', File [])]),
          (''Home.md'', File [''# Home''])]" "[''# Home'']" "[''notes'']" "[]"
        "''/wiki''" "''_Sidebar.md''"] a b
    by simp
qed

section \<open>The outline: each line with the entry it is built from\<close>

text \<open>
  The source appends formatted strings. To say which directory entry a line comes from,
  the outline records, in the order of emission, the loop variable each line is formatted
  from: \<open>file\<close> for a leaf link, \<open>subdir\<close> for a subsection header, \<open>directory\<close> for a
  section header; the home header, the blank separators and the \<open>Unsorted\<close> header come
  from no entry. The outline follows the loops of \<open>process_directory\<close> and
  \<open>generate_sidebar\<close> over the same lists, and the theorem below shows that formatting it
  gives exactly the lines the code builds.
\<close>

datatype render_line =
    Fixed string
  | SectionHeader string
  | SubsectionHeader nat string
  | LeafLink nat string

fun render_text :: "render_line \<Rightarrow> string" where
  \<comment> \<open>the text of the line, by the format strings of the source\<close>
  "render_text (Fixed line) = line"
| "render_text (SectionHeader directory) = section_header directory"
| "render_text (SubsectionHeader level subdir) = subsection_header (indent_of level) subdir"
| "render_text (LeafLink level file) = leaf_link (indent_of level) file"

fun visible_entry :: "render_line \<Rightarrow> bool" where
  \<comment> \<open>the entry a line is built from is neither hidden nor, for a file, protected\<close>
  "visible_entry (Fixed line) = True"
| "visible_entry (SectionHeader directory) = (\<not> startswith directory ''.'')"
| "visible_entry (SubsectionHeader level subdir) = (\<not> startswith subdir ''.'')"
| "visible_entry (LeafLink level file) = (\<not> startswith file ''_'' \<and> \<not> startswith file ''.'')"

function outline_directory ::
  "string \<Rightarrow> node \<Rightarrow> nat \<Rightarrow> string list \<Rightarrow> render_line list" where
  \<comment> \<open>the loops of \<open>process_directory\<close> on a directory; the list \<open>subdirs\<close> holds
      directories only\<close>
  "outline_directory directory_path (File _) level gitignore_patterns = []"
| "outline_directory directory_path (Dir listing) level gitignore_patterns =
     map (LeafLink level)
       (md_files directory_path (sort_key fst listing) gitignore_patterns)
     @ concat (map (\<lambda>(subdir, n).
          SubsectionHeader level subdir
          # outline_directory (join directory_path subdir) n (Suc level) gitignore_patterns)
        (rendered_subdirs directory_path (sort_key fst listing) gitignore_patterns))"
  by pat_completeness auto
termination
proof (relation "measure (\<lambda>(p, n, l, g). size n)", goal_cases)
  case 1
  show ?case by simp
next
  case (2 directory_path listing level gitignore_patterns x subdir n)
  then have "(subdir, n) \<in> set listing"
    by (auto simp: rendered_subdirs_def subdirs_of_def)
  then show ?case
    using size_child_less by fastforce
qed

declare outline_directory.simps [simp del]

definition sidebar_outline :: "string \<Rightarrow> (string \<times> node) list \<Rightarrow> string list \<Rightarrow> render_line list" where
  \<comment> \<open>the loops of \<open>generate_sidebar\<close>\<close>
  "sidebar_outline wiki_dir listing gitignore_patterns =
     [Fixed ''### [[Home]]'', Fixed []]
     @ concat (map (\<lambda>(directory, n).
          SectionHeader directory
          # outline_directory (join wiki_dir directory) n 1 gitignore_patterns
          @ [Fixed []])
        (rendered_directories wiki_dir (sort_key fst listing) gitignore_patterns))
     @ (if root_md_files wiki_dir (sort_key fst listing) gitignore_patterns \<noteq> []
        then Fixed ''### Unsorted''
             # map (LeafLink 0)
                 (sort (root_md_files wiki_dir (sort_key fst listing) gitignore_patterns))
        else [])"

lemma rendered_subdirs_isdir:
  "(d, n) \<in> set (rendered_subdirs p items pats) \<Longrightarrow> isdir n \<and> \<not> startswith d ''.''"
  by (auto simp: rendered_subdirs_def subdirs_of_def)

lemma rendered_directories_isdir:
  "(d, n) \<in> set (rendered_directories p items pats) \<Longrightarrow> isdir n \<and> \<not> startswith d ''.''"
  by (auto simp: rendered_directories_def subdirs_of_def)

lemma list_all_concat_map:
  "(\<And>x. x \<in> set xs \<Longrightarrow> list_all P (f x)) \<Longrightarrow> list_all P (concat (map f xs))"
  by (induction xs) auto

lemma concat_map_cong:
  "(\<And>x. x \<in> set xs \<Longrightarrow> f x = g x) \<Longrightarrow> concat (map f xs) = concat (map g xs)"
  by (induction xs) auto

lemma outline_directory_text:
  "process_directory p es [] l pats = map render_text (outline_directory p (Dir es) l pats)"
proof (induction "size (Dir es)" arbitrary: p es l rule: less_induct)
  case less
  have block: "subdir_block p l pats x =
      map render_text (case x of (subdir, n) \<Rightarrow>
          SubsectionHeader l subdir # outline_directory (join p subdir) n (Suc l) pats)"
    if xin: "x \<in> set (rendered_subdirs p (sort_key fst es) pats)" for x
  proof -
    obtain d n where x: "x = (d, n)" by (cases x)
    have "isdir n" using rendered_subdirs_isdir xin x by blast
    then obtain sub where n: "n = Dir sub" by (cases n) auto
    have "(d, Dir sub) \<in> set es"
      using xin x n by (auto simp: rendered_subdirs_def subdirs_of_def)
    then have "size (Dir sub) < size (Dir es)" by (rule size_child_less)
    from less[OF this, of "join p d" "Suc l"] show ?thesis
      using x n by simp
  qed
  have "concat (map (subdir_block p l pats) (rendered_subdirs p (sort_key fst es) pats))
      = concat (map (\<lambda>x. map render_text (case x of (subdir, n) \<Rightarrow>
          SubsectionHeader l subdir # outline_directory (join p subdir) n (Suc l) pats))
          (rendered_subdirs p (sort_key fst es) pats))"
    by (rule concat_map_cong) (rule block)
  then show ?case
    by (subst process_directory_closed) (simp add: outline_directory.simps map_concat comp_def)
qed

lemma outline_directory_visible:
  "list_all visible_entry (outline_directory p n l pats)"
proof (induction p n l pats rule: outline_directory.induct)
  case (1 p ls l pats)
  show ?case by (simp add: outline_directory.simps)
next
  case (2 p es l pats)
  have files: "list_all visible_entry (map (LeafLink l) (md_files p (sort_key fst es) pats))"
    by (auto simp: list_all_iff md_files_def)
  have dirs: "list_all visible_entry (case x of (subdir, n) \<Rightarrow>
          SubsectionHeader l subdir # outline_directory (join p subdir) n (Suc l) pats)"
    if "x \<in> set (rendered_subdirs p (sort_key fst es) pats)" for x
  proof -
    obtain d n where x: "x = (d, n)" by (cases x)
    have vis: "\<not> startswith d ''.''"
      using that x rendered_subdirs_isdir by blast
    have "list_all visible_entry (outline_directory (join p d) n (Suc l) pats)"
      using "2.IH"[OF that x[symmetric]] .
    then show ?thesis
      using vis by (simp add: x)
  qed
  have "list_all visible_entry (concat (map (\<lambda>(subdir, n).
          SubsectionHeader l subdir # outline_directory (join p subdir) n (Suc l) pats)
        (rendered_subdirs p (sort_key fst es) pats)))"
    by (rule list_all_concat_map) (rule dirs)
  then show ?case
    using files by (simp add: outline_directory.simps)
qed

text \<open>
  Claim C2, as the code has it. At every level and for every pattern list, the lines of the
  sidebar are the formatted outline, and every line of the outline comes from an entry
  whose name does not start with \<open>.\<close>; a leaf link moreover comes from a file whose name
  does not start with \<open>_\<close>. Nothing excludes a directory whose name starts with \<open>_\<close>.
\<close>

theorem hidden_and_protected_entries_excluded:
  "sidebar_content wiki_dir listing pats = map render_text (sidebar_outline wiki_dir listing pats)
   \<and> list_all visible_entry (sidebar_outline wiki_dir listing pats)
   \<and> process_directory p es c l pats = c @ map render_text (outline_directory p (Dir es) l pats)
   \<and> list_all visible_entry (outline_directory p (Dir es) l pats)"
proof (intro conjI)
  have block: "section_block wiki_dir pats x =
      map render_text (case x of (directory, n) \<Rightarrow>
          SectionHeader directory # outline_directory (join wiki_dir directory) n 1 pats
          @ [Fixed []])"
    if xin: "x \<in> set (rendered_directories wiki_dir (sort_key fst listing) pats)" for x
  proof -
    obtain d n where x: "x = (d, n)" by (cases x)
    have "isdir n" using rendered_directories_isdir xin x by blast
    then obtain sub where n: "n = Dir sub" by (cases n) auto
    show ?thesis
      using x n outline_directory_text[of "join wiki_dir d" sub 1 pats] by simp
  qed
  have sections: "concat (map (section_block wiki_dir pats)
        (rendered_directories wiki_dir (sort_key fst listing) pats))
      = concat (map (\<lambda>x. map render_text (case x of (directory, n) \<Rightarrow>
          SectionHeader directory # outline_directory (join wiki_dir directory) n 1 pats
          @ [Fixed []]))
        (rendered_directories wiki_dir (sort_key fst listing) pats))"
    by (rule concat_map_cong) (rule block)
  have leaf0: "leaf_link [] = (\<lambda>f. render_text (LeafLink 0 f))"
    by (simp add: fun_eq_iff indent_of_def)
  show "sidebar_content wiki_dir listing pats = map render_text (sidebar_outline wiki_dir listing pats)"
    unfolding sidebar_content_closed sidebar_outline_def sections
    by (simp add: map_concat comp_def leaf0)
  have dirs: "list_all visible_entry (case x of (directory, n) \<Rightarrow>
          SectionHeader directory # outline_directory (join wiki_dir directory) n 1 pats
          @ [Fixed []])"
    if "x \<in> set (rendered_directories wiki_dir (sort_key fst listing) pats)" for x
  proof -
    obtain d n where x: "x = (d, n)" by (cases x)
    have vis: "\<not> startswith d ''.''"
      using that x rendered_directories_isdir by blast
    show ?thesis
      using x vis outline_directory_visible by simp
  qed
  have files: "list_all visible_entry
      (map (LeafLink 0) (sort (root_md_files wiki_dir (sort_key fst listing) pats)))"
    by (auto simp: list_all_iff root_md_files_def)
  have sec_vis: "list_all visible_entry
      (concat (map (\<lambda>(directory, n).
          SectionHeader directory # outline_directory (join wiki_dir directory) n 1 pats
          @ [Fixed []])
        (rendered_directories wiki_dir (sort_key fst listing) pats)))"
    by (rule list_all_concat_map) (rule dirs)
  have head: "list_all visible_entry [Fixed ''### [[Home]]'', Fixed []]"
    by simp
  have unsorted: "list_all visible_entry
      (if root_md_files wiki_dir (sort_key fst listing) pats \<noteq> []
        then Fixed ''### Unsorted''
             # map (LeafLink 0) (sort (root_md_files wiki_dir (sort_key fst listing) pats))
        else [])"
    using files by simp
  show "list_all visible_entry (sidebar_outline wiki_dir listing pats)"
    unfolding sidebar_outline_def list_all_append using head sec_vis unsorted by blast
  show "process_directory p es c l pats = c @ map render_text (outline_directory p (Dir es) l pats)"
    using process_directory_content[of p es c l pats] by (simp add: outline_directory_text)
  show "list_all visible_entry (outline_directory p (Dir es) l pats)"
    by (rule outline_directory_visible)
qed

theorem hidden_and_protected_entries_excluded_witness:
  "sidebar_content ''/wiki''
     [(''.git'', Dir [(''x.md'', File [])]), (''_Sidebar.md'', File []),
      (''Guides'', Dir [(''_draft.md'', File []), (''.notes.md'', File []),
                        (''intro.md'', File [])]),
      (''.hidden.md'', File []), (''loose.md'', File [])] []
     = [''### [[Home]]'', [], ''### Guides'', ''  - [intro](intro)'', [],
        ''### Unsorted'', ''- [loose](loose)'']
   \<and> sidebar_outline ''/wiki''
     [(''.git'', Dir [(''x.md'', File [])]), (''_Sidebar.md'', File []),
      (''Guides'', Dir [(''_draft.md'', File []), (''.notes.md'', File []),
                        (''intro.md'', File [])]),
      (''.hidden.md'', File []), (''loose.md'', File [])] []
     = [Fixed ''### [[Home]]'', Fixed [], SectionHeader ''Guides'', LeafLink 1 ''intro.md'',
        Fixed [], Fixed ''### Unsorted'', LeafLink 0 ''loose.md'']
   \<and> list_all visible_entry (sidebar_outline ''/wiki''
     [(''.git'', Dir [(''x.md'', File [])]), (''_Sidebar.md'', File []),
      (''Guides'', Dir [(''_draft.md'', File []), (''.notes.md'', File []),
                        (''intro.md'', File [])]),
      (''.hidden.md'', File []), (''loose.md'', File [])] [])"
proof -
  have a: "sidebar_outline ''/wiki''
     [(''.git'', Dir [(''x.md'', File [])]), (''_Sidebar.md'', File []),
      (''Guides'', Dir [(''_draft.md'', File []), (''.notes.md'', File []),
                        (''intro.md'', File [])]),
      (''.hidden.md'', File []), (''loose.md'', File [])] []
     = [Fixed ''### [[Home]]'', Fixed [], SectionHeader ''Guides'', LeafLink 1 ''intro.md'',
        Fixed [], Fixed ''### Unsorted'', LeafLink 0 ''loose.md'']"
    by code_simp
  have b: "map render_text
      [Fixed ''### [[Home]]'', Fixed [], SectionHeader ''Guides'', LeafLink 1 ''intro.md'',
        Fixed [], Fixed ''### Unsorted'', LeafLink 0 ''loose.md'']
     = [''### [[Home]]'', [], ''### Guides'', ''  - [intro](intro)'', [],
        ''### Unsorted'', ''- [loose](loose)'']"
    by code_simp
  note inst = hidden_and_protected_entries_excluded[of "''/wiki''"
        "[(''.git'', Dir [(''x.md'', File [])]), (''_Sidebar.md'', File []),
          (''Guides'', Dir [(''_draft.md'', File []), (''.notes.md'', File []),
                            (''intro.md'', File [])]),
          (''.hidden.md'', File []), (''loose.md'', File [])]" "[]" "[]" "[]" "[]" 0]
  have c: "list_all visible_entry (sidebar_outline ''/wiki''
     [(''.git'', Dir [(''x.md'', File [])]), (''_Sidebar.md'', File []),
      (''Guides'', Dir [(''_draft.md'', File []), (''.notes.md'', File []),
                        (''intro.md'', File [])]),
      (''.hidden.md'', File []), (''loose.md'', File [])] [])"
    using inst by blast
  have "sidebar_content ''/wiki''
     [(''.git'', Dir [(''x.md'', File [])]), (''_Sidebar.md'', File []),
      (''Guides'', Dir [(''_draft.md'', File []), (''.notes.md'', File []),
                        (''intro.md'', File [])]),
      (''.hidden.md'', File []), (''loose.md'', File [])] []
     = map render_text (sidebar_outline ''/wiki''
     [(''.git'', Dir [(''x.md'', File [])]), (''_Sidebar.md'', File []),
      (''Guides'', Dir [(''_draft.md'', File []), (''.notes.md'', File []),
                        (''intro.md'', File [])]),
      (''.hidden.md'', File []), (''loose.md'', File [])] [])"
    using inst by blast
  then have d: "sidebar_content ''/wiki''
     [(''.git'', Dir [(''x.md'', File [])]), (''_Sidebar.md'', File []),
      (''Guides'', Dir [(''_draft.md'', File []), (''.notes.md'', File []),
                        (''intro.md'', File [])]),
      (''.hidden.md'', File []), (''loose.md'', File [])] []
     = [''### [[Home]]'', [], ''### Guides'', ''  - [intro](intro)'', [],
        ''### Unsorted'', ''- [loose](loose)'']"
    by (simp only: a b)
  from d a c show ?thesis by blast
qed

text \<open>
  Claim C2 as stated fails for directories: the directory \<open>_drafts\<close> starts with the
  protected marker, and the sidebar holds its section header and the link of the file in
  it.
\<close>

theorem protected_directory_rendered_counterexample:
  "startswith ''_drafts'' ''_''
   \<and> sidebar_outline ''/wiki'' [(''_drafts'', Dir [(''a.md'', File [])])] []
       = [Fixed ''### [[Home]]'', Fixed [], SectionHeader ''_drafts'', LeafLink 1 ''a.md'',
          Fixed []]
   \<and> sidebar_content ''/wiki'' [(''_drafts'', Dir [(''a.md'', File [])])] []
       = [''### [[Home]]'', [], ''###  drafts'', ''  - [a](a)'', []]"
  by code_simp

section \<open>Independence of the listing order\<close>

text \<open>
  The model is a function of the filesystem state, so two runs on the same listings agree
  trivially. What could differ between two runs on an unchanged tree is the order in which
  \<open>os.listdir\<close> returns the names of a directory, which nothing fixes. Two listings
  describe the same tree when they agree once every listing, at every depth, is put in
  name order.
\<close>

fun listed_by_name :: "node \<Rightarrow> node" where
  \<comment> \<open>the tree with every listing, at every depth, put in name order\<close>
  "listed_by_name (File f) = File f"
| "listed_by_name (Dir listing) =
     Dir (sort_key fst (map (\<lambda>(name, n). (name, listed_by_name n)) listing))"

definition entry_by_name :: "string \<times> node \<Rightarrow> string \<times> node" where
  \<comment> \<open>one entry of a listing, its subtree in name order\<close>
  "entry_by_name = (\<lambda>(name, n). (name, listed_by_name n))"

lemma fst_entry_by_name [simp]: "fst (entry_by_name x) = fst x"
  by (cases x) (simp add: entry_by_name_def)

lemma snd_entry_by_name [simp]: "snd (entry_by_name x) = listed_by_name (snd x)"
  by (cases x) (simp add: entry_by_name_def)

lemma entry_by_name_pair [simp]: "entry_by_name (d, n) = (d, listed_by_name n)"
  by (simp add: entry_by_name_def)

lemma listed_by_name_Dir:
  "listed_by_name (Dir listing) = Dir (sort_key fst (map entry_by_name listing))"
  by (simp add: entry_by_name_def)

lemma isdir_listed_by_name [simp]: "isdir (listed_by_name n) = isdir n"
  by (cases n) simp_all

lemma isfile_listed_by_name [simp]: "isfile (listed_by_name n) = isfile n"
  by (cases n) simp_all

lemma insort_key_entry_by_name:
  "insort_key fst (entry_by_name x) (map entry_by_name ys)
     = map entry_by_name (insort_key fst x ys)"
  by (induction ys) simp_all

lemma sort_key_entry_by_name:
  "sort_key fst (map entry_by_name xs) = map entry_by_name (sort_key fst xs)"
  by (induction xs) (simp_all add: insort_key_entry_by_name)

lemma sort_key_sorted_entries:
  "sort_key fst (sort_key fst (map entry_by_name es)) = map entry_by_name (sort_key fst es)"
proof -
  have "sorted (map fst (sort_key fst (map entry_by_name es)))" by (rule sorted_sort_key)
  then have "sort_key fst (sort_key fst (map entry_by_name es)) = sort_key fst (map entry_by_name es)"
    by (rule sort_key_id_if_sorted)
  then show ?thesis by (simp add: sort_key_entry_by_name)
qed

lemma map_of_insort_key: "map_of (insort_key fst x xs) = map_of (x # xs)"
proof (induction xs)
  case Nil
  show ?case by simp
next
  case (Cons y ys)
  show ?case
  proof (cases "fst x \<le> fst y")
    case True
    then show ?thesis by simp
  next
    case False
    then have "fst x \<noteq> fst y" by auto
    then show ?thesis
      using False Cons by (cases x; cases y) (auto simp: fun_upd_twist)
  qed
qed

lemma map_of_sort_key: "map_of (sort_key fst xs) = map_of xs"
  by (induction xs) (simp_all add: map_of_insort_key)

lemma map_of_entry_by_name:
  "map_of (map entry_by_name xs) k = map_option listed_by_name (map_of xs k)"
  by (induction xs) (auto simp: entry_by_name_def)

lemma load_gitignore_patterns_by_name:
  "load_gitignore_patterns (sort_key fst (map entry_by_name es)) = load_gitignore_patterns es"
  by (simp add: load_gitignore_patterns_def map_of_sort_key map_of_entry_by_name
      split: option.splits node.splits)

lemma has_md_files_walk_entries:
  "has_md_files pats (walk p (Dir es)) \<longleftrightarrow>
     (\<exists>x \<in> set es. \<not> isdir (snd x) \<and> endswith (fst x) ''.md''
          \<and> \<not> should_ignore False (join p (fst x)) pats)
     \<or> (\<exists>x \<in> set es. isdir (snd x) \<and> has_md_files pats (walk (join p (fst x)) (snd x)))"
  unfolding has_md_files_walk_Dir by (simp add: case_prod_beta)

lemma has_md_files_root_walk_entries:
  "has_md_files_root (walk p (Dir es)) \<longleftrightarrow>
     (\<exists>x \<in> set es. \<not> isdir (snd x) \<and> endswith (fst x) ''.md'')
     \<or> (\<exists>x \<in> set es. isdir (snd x) \<and> has_md_files_root (walk (join p (fst x)) (snd x)))"
  unfolding has_md_files_root_walk_Dir by (simp add: case_prod_beta)

lemma bex_entries_by_name:
  "(\<exists>x \<in> set (sort_key fst (map entry_by_name es)). P x) \<longleftrightarrow> (\<exists>x \<in> set es. P (entry_by_name x))"
  by simp

lemma has_md_files_by_name:
  "has_md_files pats (walk p (listed_by_name n)) = has_md_files pats (walk p n)"
proof (induction "size n" arbitrary: p n rule: less_induct)
  case less
  show ?case
  proof (cases n)
    case (File f)
    then show ?thesis by simp
  next
    case (Dir es)
    have IH: "has_md_files pats (walk q (listed_by_name (snd x))) = has_md_files pats (walk q (snd x))"
      if "x \<in> set es" for x q
    proof -
      have "(fst x, snd x) \<in> set es" using that by simp
      then have "size (snd x) < size n" unfolding Dir by (rule size_child_less)
      then show ?thesis by (rule less)
    qed
    have "(\<exists>x \<in> set es. isdir (snd x)
              \<and> has_md_files pats (walk (join p (fst x)) (listed_by_name (snd x))))
        \<longleftrightarrow> (\<exists>x \<in> set es. isdir (snd x) \<and> has_md_files pats (walk (join p (fst x)) (snd x)))"
      using IH by blast
    then show ?thesis
      unfolding Dir listed_by_name_Dir has_md_files_walk_entries bex_entries_by_name
        fst_entry_by_name snd_entry_by_name isdir_listed_by_name
      by (rule arg_cong2[where f = "(\<or>)", OF refl])
  qed
qed

lemma has_md_files_root_by_name:
  "has_md_files_root (walk p (listed_by_name n)) = has_md_files_root (walk p n)"
proof (induction "size n" arbitrary: p n rule: less_induct)
  case less
  show ?case
  proof (cases n)
    case (File f)
    then show ?thesis by simp
  next
    case (Dir es)
    have IH: "has_md_files_root (walk q (listed_by_name (snd x))) = has_md_files_root (walk q (snd x))"
      if "x \<in> set es" for x q
    proof -
      have "(fst x, snd x) \<in> set es" using that by simp
      then have "size (snd x) < size n" unfolding Dir by (rule size_child_less)
      then show ?thesis by (rule less)
    qed
    have "(\<exists>x \<in> set es. isdir (snd x)
              \<and> has_md_files_root (walk (join p (fst x)) (listed_by_name (snd x))))
        \<longleftrightarrow> (\<exists>x \<in> set es. isdir (snd x) \<and> has_md_files_root (walk (join p (fst x)) (snd x)))"
      using IH by blast
    then show ?thesis
      unfolding Dir listed_by_name_Dir has_md_files_root_walk_entries bex_entries_by_name
        fst_entry_by_name snd_entry_by_name isdir_listed_by_name
      by (rule arg_cong2[where f = "(\<or>)", OF refl])
  qed
qed


lemma md_files_by_name:
  "md_files p (map entry_by_name items) pats = md_files p items pats"
  by (induction items) (auto simp: md_files_def entry_by_name_def)

lemma root_md_files_by_name:
  "root_md_files p (map entry_by_name items) pats = root_md_files p items pats"
  by (induction items) (auto simp: root_md_files_def entry_by_name_def)

lemma subdirs_of_by_name:
  "subdirs_of p (map entry_by_name items) pats = map entry_by_name (subdirs_of p items pats)"
  by (induction items) (auto simp: subdirs_of_def entry_by_name_def)

lemma filter_map_entry_by_name:
  "(\<And>x. P (entry_by_name x) = P x)
   \<Longrightarrow> filter P (map entry_by_name xs) = map entry_by_name (filter P xs)"
  by (induction xs) auto

lemma rendered_subdirs_by_name:
  "rendered_subdirs p (map entry_by_name items) pats
     = map entry_by_name (rendered_subdirs p items pats)"
  unfolding rendered_subdirs_def subdirs_of_by_name
  by (rule filter_map_entry_by_name) (simp add: case_prod_beta has_md_files_by_name)

lemma rendered_directories_by_name:
  "rendered_directories p (map entry_by_name items) pats
     = map entry_by_name (rendered_directories p items pats)"
  unfolding rendered_directories_def subdirs_of_by_name
  by (rule filter_map_entry_by_name) (simp add: case_prod_beta has_md_files_root_by_name)

lemma process_directory_by_name:
  "process_directory p (sort_key fst (map entry_by_name es)) c l pats
     = process_directory p es c l pats"
proof (induction "size (Dir es)" arbitrary: p es c l rule: less_induct)
  case less
  have block: "subdir_block p l pats (entry_by_name x) = subdir_block p l pats x"
    if xin: "x \<in> set (rendered_subdirs p (sort_key fst es) pats)" for x
  proof -
    obtain d n where x: "x = (d, n)" by (cases x)
    show ?thesis
    proof (cases n)
      case (File f)
      then show ?thesis using x by simp
    next
      case (Dir sub)
      have "(d, Dir sub) \<in> set es"
        using xin x Dir by (auto simp: rendered_subdirs_def subdirs_of_def)
      then have "size (Dir sub) < size (Dir es)" by (rule size_child_less)
      from less[OF this, of "join p d" "[]" "Suc l"] show ?thesis
        using x Dir by (simp add: listed_by_name_Dir del: listed_by_name.simps)
    qed
  qed
  have blocks: "concat (map (\<lambda>x. subdir_block p l pats (entry_by_name x))
        (rendered_subdirs p (sort_key fst es) pats))
      = concat (map (subdir_block p l pats) (rendered_subdirs p (sort_key fst es) pats))"
    by (rule concat_map_cong) (rule block)
  show ?case
    unfolding process_directory_closed[of p "sort_key fst (map entry_by_name es)" c l pats]
      process_directory_closed[of p es c l pats]
    by (simp add: sort_key_sorted_entries md_files_by_name rendered_subdirs_by_name
        comp_def blocks)
qed

lemma sidebar_content_by_name:
  "sidebar_content wd (sort_key fst (map entry_by_name es)) pats = sidebar_content wd es pats"
proof -
  have block: "section_block wd pats (entry_by_name x) = section_block wd pats x" for x
  proof -
    obtain d n where x: "x = (d, n)" by (cases x)
    show ?thesis
    proof (cases n)
      case (File f)
      then show ?thesis using x by simp
    next
      case (Dir sub)
      then show ?thesis
        using x by (simp add: listed_by_name_Dir process_directory_by_name
            del: listed_by_name.simps)
    qed
  qed
  show ?thesis
    unfolding sidebar_content_closed
    by (simp add: sort_key_sorted_entries root_md_files_by_name rendered_directories_by_name
        comp_def block)
qed

lemma generate_sidebar_by_name:
  "generate_sidebar wd (sort_key fst (map entry_by_name es)) out = generate_sidebar wd es out"
  by (simp add: generate_sidebar_def load_gitignore_patterns_by_name sidebar_content_by_name
      split: sum.split)

lemma listed_by_name_permutation:
  assumes "mset es1 = mset es2" and "distinct (map fst es1)"
  shows "listed_by_name (Dir es1) = listed_by_name (Dir es2)"
proof -
  have m: "mset (map entry_by_name es1) = mset (sort_key fst (map entry_by_name es2))"
    using assms(1) by (simp add: mset_map)
  have keys: "map fst (map entry_by_name es1) = map fst es1" by (simp add: comp_def)
  have "distinct (map fst (map entry_by_name es1))" using assms(2) by (simp only: keys)
  then have inj: "inj_on fst (set (map entry_by_name es1))"
    by (simp only: distinct_map)
  have "sort_key fst (map entry_by_name es1) = sort_key fst (map entry_by_name es2)"
    using m inj by (rule sort_key_inj_key_eq) (rule sorted_sort_key)
  then show ?thesis by (simp add: listed_by_name_Dir del: listed_by_name.simps)
qed

text \<open>
  Claim C9. Two runs of \<open>generate_sidebar\<close> with the same root path and output name, on
  listings that describe the same tree (rules file included), return the same path and
  byte-identical text, whatever order the directories are listed in; in particular for
  any reordering of a root listing whose names are distinct.
\<close>

theorem generate_sidebar_deterministic:
  "(listed_by_name (Dir listing1) = listed_by_name (Dir listing2)
      \<longrightarrow> generate_sidebar wiki_dir listing1 output_file
            = generate_sidebar wiki_dir listing2 output_file)
   \<and> (mset listing1 = mset listing2 \<and> distinct (map fst listing1)
      \<longrightarrow> generate_sidebar wiki_dir listing1 output_file
            = generate_sidebar wiki_dir listing2 output_file)"
proof -
  have main: "generate_sidebar wiki_dir a output_file = generate_sidebar wiki_dir b output_file"
    if "listed_by_name (Dir a) = listed_by_name (Dir b)" for a b
  proof -
    have "sort_key fst (map entry_by_name a) = sort_key fst (map entry_by_name b)"
      using that by (simp add: listed_by_name_Dir del: listed_by_name.simps)
    then have "generate_sidebar wiki_dir (sort_key fst (map entry_by_name a)) output_file
        = generate_sidebar wiki_dir (sort_key fst (map entry_by_name b)) output_file"
      by simp
    then show ?thesis by (simp only: generate_sidebar_by_name)
  qed
  show ?thesis
    using main listed_by_name_permutation by blast
qed

theorem generate_sidebar_deterministic_witness:
  "listed_by_name (Dir [(''b.md'', File []), (''.gitignore'', File [''*.tmp'']),
      (''Guides'', Dir [(''z.md'', File []), (''a.md'', File [])]), (''Home.md'', File [])])
     = listed_by_name (Dir [(''Home.md'', File []), (''b.md'', File []),
      (''Guides'', Dir [(''a.md'', File []), (''z.md'', File [])]),
      (''.gitignore'', File [''*.tmp''])])
   \<and> generate_sidebar ''/wiki''
       [(''b.md'', File []), (''.gitignore'', File [''*.tmp'']),
      (''Guides'', Dir [(''z.md'', File []), (''a.md'', File [])]), (''Home.md'', File [])] ''_Sidebar.md''
     = generate_sidebar ''/wiki''
       [(''Home.md'', File []), (''b.md'', File []),
      (''Guides'', Dir [(''a.md'', File []), (''z.md'', File [])]),
      (''.gitignore'', File [''*.tmp''])] ''_Sidebar.md''
   \<and> mset [(''b.md'', File []), (''.gitignore'', File [''*.tmp'']),
      (''Guides'', Dir [(''z.md'', File []), (''a.md'', File [])]), (''Home.md'', File [])]
     = mset [(''Home.md'', File []), (''Guides'', Dir [(''z.md'', File []), (''a.md'', File [])]),
      (''.gitignore'', File [''*.tmp'']), (''b.md'', File [])]
   \<and> distinct (map fst [(''b.md'', File []), (''.gitignore'', File [''*.tmp'']),
      (''Guides'', Dir [(''z.md'', File []), (''a.md'', File [])]), (''Home.md'', File [])])
   \<and> generate_sidebar ''/wiki''
       [(''b.md'', File []), (''.gitignore'', File [''*.tmp'']),
      (''Guides'', Dir [(''z.md'', File []), (''a.md'', File [])]), (''Home.md'', File [])] ''_Sidebar.md''
     = generate_sidebar ''/wiki''
       [(''Home.md'', File []), (''Guides'', Dir [(''z.md'', File []), (''a.md'', File [])]),
      (''.gitignore'', File [''*.tmp'']), (''b.md'', File [])] ''_Sidebar.md''"
proof -
  have a: "listed_by_name (Dir [(''b.md'', File []), (''.gitignore'', File [''*.tmp'']),
      (''Guides'', Dir [(''z.md'', File []), (''a.md'', File [])]), (''Home.md'', File [])])
     = listed_by_name (Dir [(''Home.md'', File []), (''b.md'', File []),
      (''Guides'', Dir [(''a.md'', File []), (''z.md'', File [])]),
      (''.gitignore'', File [''*.tmp''])])"
    by simp
  have b: "mset [(''b.md'', File []), (''.gitignore'', File [''*.tmp'']),
      (''Guides'', Dir [(''z.md'', File []), (''a.md'', File [])]), (''Home.md'', File [])]
     = mset [(''Home.md'', File []), (''Guides'', Dir [(''z.md'', File []), (''a.md'', File [])]),
      (''.gitignore'', File [''*.tmp'']), (''b.md'', File [])]"
    by simp
  have c: "distinct (map fst [(''b.md'', File []), (''.gitignore'', File [''*.tmp'']),
      (''Guides'', Dir [(''z.md'', File []), (''a.md'', File [])]), (''Home.md'', File [])])"
    by simp
  have d: "generate_sidebar ''/wiki''
       [(''b.md'', File []), (''.gitignore'', File [''*.tmp'']),
      (''Guides'', Dir [(''z.md'', File []), (''a.md'', File [])]), (''Home.md'', File [])] ''_Sidebar.md''
     = generate_sidebar ''/wiki''
       [(''Home.md'', File []), (''b.md'', File []),
      (''Guides'', Dir [(''a.md'', File []), (''z.md'', File [])]),
      (''.gitignore'', File [''*.tmp''])] ''_Sidebar.md''"
    using generate_sidebar_deterministic[of
        "[(''b.md'', File []), (''.gitignore'', File [''*.tmp'']),
      (''Guides'', Dir [(''z.md'', File []), (''a.md'', File [])]), (''Home.md'', File [])]"
        "[(''Home.md'', File []), (''b.md'', File []),
      (''Guides'', Dir [(''a.md'', File []), (''z.md'', File [])]),
      (''.gitignore'', File [''*.tmp''])]"
        "''/wiki''" "''_Sidebar.md''"] a
    by blast
  have e: "generate_sidebar ''/wiki''
       [(''b.md'', File []), (''.gitignore'', File [''*.tmp'']),
      (''Guides'', Dir [(''z.md'', File []), (''a.md'', File [])]), (''Home.md'', File [])] ''_Sidebar.md''
     = generate_sidebar ''/wiki''
       [(''Home.md'', File []), (''Guides'', Dir [(''z.md'', File []), (''a.md'', File [])]),
      (''.gitignore'', File [''*.tmp'']), (''b.md'', File [])] ''_Sidebar.md''"
    using generate_sidebar_deterministic[of
        "[(''b.md'', File []), (''.gitignore'', File [''*.tmp'']),
      (''Guides'', Dir [(''z.md'', File []), (''a.md'', File [])]), (''Home.md'', File [])]"
        "[(''Home.md'', File []), (''Guides'', Dir [(''z.md'', File []), (''a.md'', File [])]),
      (''.gitignore'', File [''*.tmp'']), (''b.md'', File [])]"
        "''/wiki''" "''_Sidebar.md''"] b c
    by blast
  from a b c d e show ?thesis by blast
qed

end
